theory Spec2Isabelle
  imports Main "HOL-Library.AList"
begin

section \<open>The pizza order form (frontend/components/Form.js)\<close>

text \<open>
  Form.js holds two revisions of the same React component. They differ in the text of two
  messages, in the schema of the toppings field, in the outcome of the simulated order
  service, in the delay of the banner timer and in the touched/attempted state that only the
  second revision has. The model takes the revision as a parameter and follows the source
  line by line wherever the two agree.
\<close>

datatype revision = Rev1 | Rev2

subsection \<open>JavaScript strings\<close>

text \<open>
  A string is a list of code units; \<open>length\<close> counts them as \<open>String.prototype.length\<close>
  does. Characters are 8 bits wide here, so the model covers the strings whose code units
  are below 256. \<open>String.prototype.trim\<close> removes white space and line terminators from
  both ends; in that range these are TAB, LF, VT, FF, CR, SPACE and NBSP.
\<close>

definition is_space :: "char \<Rightarrow> bool" where
  "is_space c =
     (c \<in> set [CHR 0x09, CHR 0x0A, CHR 0x0B, CHR 0x0C, CHR 0x0D, CHR 0x20, CHR 0xA0])"

definition trim :: "string \<Rightarrow> string" where
  "trim s = rev (dropWhile is_space (rev (dropWhile is_space s)))"

text \<open>
  Decimal rendering of a number inside a template literal. \<open>digit_char\<close> is only applied
  to numbers below 10.
\<close>

definition digit_char :: "nat \<Rightarrow> char" where
  "digit_char d = ''0123456789'' ! d"

function string_of_nat :: "nat \<Rightarrow> string" where
  "string_of_nat n =
     (if n < 10 then [digit_char n] else string_of_nat (n div 10) @ [digit_char (n mod 10)])"
  by pat_completeness auto
termination
  by (relation "measure id") auto

declare string_of_nat.simps [simp del]

subsection \<open>Form data and messages\<close>

record FormState =
  fullName :: string
  size :: string
  toppings :: "string list"

record validation_messages =
  fullNameTooShort :: string
  fullNameTooLong :: string
  sizeIncorrect :: string
  toppingsRequired :: string

definition validationErrors :: "revision \<Rightarrow> validation_messages" where
  "validationErrors rv =
     \<lparr> fullNameTooShort = ''Full name must be at least 3 characters'',
       fullNameTooLong = ''Full name must be at most 20 characters'',
       sizeIncorrect = (case rv of Rev1 \<Rightarrow> ''Size must be S or M or L''
                                 | Rev2 \<Rightarrow> ''size must be S or M or L''),
       toppingsRequired = ''At least one topping must be selected'' \<rparr>"

record topping =
  topping_id :: string
  topping_text :: string

definition toppingsData :: "topping list" where
  "toppingsData =
     [ \<lparr> topping_id = ''1'', topping_text = ''Pepperoni'' \<rparr>,
       \<lparr> topping_id = ''2'', topping_text = ''Green Peppers'' \<rparr>,
       \<lparr> topping_id = ''3'', topping_text = ''Pineapple'' \<rparr>,
       \<lparr> topping_id = ''4'', topping_text = ''Mushrooms'' \<rparr>,
       \<lparr> topping_id = ''5'', topping_text = ''Ham'' \<rparr> ]"

subsection \<open>The Yup schema\<close>

text \<open>
  The schema is built from the Yup library (yup 1.3.2 and later, package.json). A schema
  first casts the value (\<open>trim\<close> is a cast), then runs its internal tests (type, presence,
  \<open>oneOf\<close>); only when these all pass does it run the tests added by \<open>min\<close>, \<open>max\<close> and
  the string \<open>required\<close>, in the order they were added. With \<open>abortEarly: false\<close> every
  failing test contributes its message. Each test below returns the messages it raises.
\<close>

definition string_trim_test :: "string \<Rightarrow> string \<Rightarrow> string list" where
  "string_trim_test msg v = (if v = trim v then [] else [msg])"

definition string_min :: "nat \<Rightarrow> string \<Rightarrow> string \<Rightarrow> string list" where
  "string_min n msg v = (if n \<le> length v then [] else [msg])"

definition string_max :: "nat \<Rightarrow> string \<Rightarrow> string \<Rightarrow> string list" where
  "string_max n msg v = (if length v \<le> n then [] else [msg])"

definition string_required :: "string \<Rightarrow> string \<Rightarrow> string list" where
  "string_required msg v = (if 0 < length v then [] else [msg])"

definition oneOf :: "string list \<Rightarrow> string \<Rightarrow> string \<Rightarrow> string list" where
  "oneOf enums msg v = (if v \<in> set enums then [] else [msg])"

text \<open>
  \<open>required\<close> on an array schema only asks for a value that is neither undefined nor null;
  an empty array is present. Every formData the component builds holds an array, which the
  schema receives as \<open>Some\<close>.
\<close>

definition array_required :: "string \<Rightarrow> 'a list option \<Rightarrow> string list" where
  "array_required msg v = (case v of None \<Rightarrow> [msg] | Some _ \<Rightarrow> [])"

definition fullName_schema :: "revision \<Rightarrow> string \<Rightarrow> string list" where
  "fullName_schema rv raw =
     (let v = trim raw
      in string_trim_test ''fullName must be a trimmed string'' v
         @ string_min 3 (fullNameTooShort (validationErrors rv)) v
         @ string_max 20 (fullNameTooLong (validationErrors rv)) v
         @ string_required ''Full name is required'' v)"

definition size_schema :: "revision \<Rightarrow> string \<Rightarrow> string list" where
  "size_schema rv v =
     (let internal = oneOf [''S'', ''M'', ''L''] (sizeIncorrect (validationErrors rv)) v
      in if internal \<noteq> [] then internal
         else string_required (case rv of Rev1 \<Rightarrow> ''Size is required''
                                        | Rev2 \<Rightarrow> ''size is required'') v)"

definition toppings_schema :: "revision \<Rightarrow> string list \<Rightarrow> string list" where
  "toppings_schema rv v =
     (case rv of Rev1 \<Rightarrow> array_required (toppingsRequired (validationErrors rv)) (Some v)
               | Rev2 \<Rightarrow> [])"

text \<open>
  \<open>pizzaSchema rv data\<close> is the list \<open>err.inner\<close> of (path, message) pairs that
  \<open>pizzaSchema.validate(data, {abortEarly: false})\<close> rejects with, in the order of the
  fields of the shape; the empty list means that the promise resolves.
\<close>

definition pizzaSchema :: "revision \<Rightarrow> FormState \<Rightarrow> (string \<times> string) list" where
  "pizzaSchema rv data =
     map (Pair ''fullName'') (fullName_schema rv (fullName data))
     @ map (Pair ''size'') (size_schema rv (size data))
     @ map (Pair ''toppings'') (toppings_schema rv (toppings data))"

text \<open>
  An object with string keys is an association list in insertion order;
  \<open>newErrors[e.path] = e.message\<close> is \<open>AList.update\<close>.
\<close>

type_synonym error_map = "(string \<times> string) list"

definition Object_keys :: "('k \<times> 'v) list \<Rightarrow> 'k list" where
  "Object_keys obj = map fst obj"

definition validateForm :: "revision \<Rightarrow> FormState \<Rightarrow> error_map" where
  "validateForm rv data =
     (let inner = pizzaSchema rv data
      in if inner = [] then []
         else fold (\<lambda>e newErrors. AList.update (fst e) (snd e) newErrors) inner [])"

subsection \<open>Component state\<close>

text \<open>
  One field per \<open>useState\<close> cell, followed by what the runtime holds for the component:
  the identity of the object in \<open>formData\<close> (every \<open>setFormData\<close> call stores a fresh
  object, and the validation effect depends on that identity), the console, the deadline of
  the pending \<open>setTimeout\<close>, the clock in milliseconds, the \<open>formData\<close> captured by a
  \<open>handleSubmit\<close> call suspended at its \<open>await\<close>, and whether the mount effects have run.
  \<open>touched\<close> and \<open>hasAttemptedSubmit\<close> exist in the second revision only; the first
  revision never reads or writes them.
\<close>

datatype log_entry = HandleChangeLog string string | SubmittedLog FormState

record form =
  formData :: FormState
  errors :: error_map
  orderSuccess :: bool
  orderMessage :: string
  orderFailure :: bool
  isSubmitDisabled :: bool
  isSubmitting :: bool
  touched :: "(string \<times> bool) list"
  hasAttemptedSubmit :: bool
  formDataId :: nat
  console :: "log_entry list"
  timer :: "nat option"
  clock :: nat
  pending :: "FormState option"
  mounted :: bool

definition initialFormData :: FormState where
  "initialFormData = \<lparr> fullName = [], size = [], toppings = [] \<rparr>"

definition Form :: form where
  "Form =
     \<lparr> formData = initialFormData,
       errors = [],
       orderSuccess = False,
       orderMessage = [],
       orderFailure = False,
       isSubmitDisabled = True,
       isSubmitting = False,
       touched = [],
       hasAttemptedSubmit = False,
       formDataId = 0,
       console = [],
       timer = None,
       clock = 0,
       pending = None,
       mounted = False \<rparr>"

definition setFormData :: "FormState \<Rightarrow> form \<Rightarrow> form" where
  "setFormData data s = s\<lparr>formData := data, formDataId := Suc (formDataId s)\<rparr>"

subsection \<open>Effects\<close>

definition validation_effect :: "revision \<Rightarrow> form \<Rightarrow> form" where
  "validation_effect rv s =
     (let currentErrors = validateForm rv (formData s)
      in s\<lparr>errors := currentErrors,
           isSubmitDisabled := (0 < length (Object_keys currentErrors))\<rparr>)"

definition banner_delay :: "revision \<Rightarrow> nat" where
  "banner_delay rv = (case rv of Rev1 \<Rightarrow> 3000 | Rev2 \<Rightarrow> 30000)"

text \<open>
  The banner effect: the cleanup of its previous run clears that run's timer, then a new
  timer is set when a banner is showing.
\<close>

definition banner_effect :: "revision \<Rightarrow> form \<Rightarrow> form" where
  "banner_effect rv s =
     (let s1 = s\<lparr>timer := None\<rparr>
      in if orderSuccess s1 \<or> orderFailure s1
         then s1\<lparr>timer := Some (clock s1 + banner_delay rv)\<rparr>
         else s1)"

definition banner_timeout :: "form \<Rightarrow> form" where
  "banner_timeout s = s\<lparr>orderSuccess := False, orderFailure := False, orderMessage := []\<rparr>"

text \<open>
  After a render React runs an effect when one of its dependencies changed: the validation
  effect depends on \<open>formData\<close> (compared by identity), the banner effect on
  \<open>orderSuccess\<close> and \<open>orderFailure\<close>.
\<close>

definition run_effects :: "revision \<Rightarrow> form \<Rightarrow> form \<Rightarrow> form" where
  "run_effects rv old new =
     (let s1 = (if formDataId new \<noteq> formDataId old then validation_effect rv new else new)
      in if orderSuccess s1 \<noteq> orderSuccess old \<or> orderFailure s1 \<noteq> orderFailure old
         then banner_effect rv s1 else s1)"

subsection \<open>Event handlers\<close>

datatype target = FullNameInput | SizeSelect

definition target_id :: "target \<Rightarrow> string" where
  "target_id t = (case t of FullNameInput \<Rightarrow> ''fullName'' | SizeSelect \<Rightarrow> ''size'')"

definition handleChange :: "revision \<Rightarrow> target \<Rightarrow> string \<Rightarrow> form \<Rightarrow> form" where
  "handleChange rv t v s =
     (let s1 = s\<lparr>console := console s @ [HandleChangeLog (target_id t) v]\<rparr>;
          s2 = setFormData (case t of FullNameInput \<Rightarrow> (formData s)\<lparr>fullName := v\<rparr>
                                    | SizeSelect \<Rightarrow> (formData s)\<lparr>size := v\<rparr>) s1
      in case rv of Rev1 \<Rightarrow> s2
                  | Rev2 \<Rightarrow> s2\<lparr>touched := AList.update (target_id t) True (touched s2)\<rparr>)"

definition handleBlur :: "target \<Rightarrow> form \<Rightarrow> form" where
  "handleBlur t s = s\<lparr>touched := AList.update (target_id t) True (touched s)\<rparr>"

definition handleToppingChange :: "revision \<Rightarrow> string \<Rightarrow> form \<Rightarrow> form" where
  "handleToppingChange rv toppingId s =
     (let toppingValue = toppingId;
          currentToppings = toppings (formData s);
          s1 = (case rv of Rev1 \<Rightarrow> s
                         | Rev2 \<Rightarrow> s\<lparr>touched := AList.update ''toppings'' True (touched s)\<rparr>)
      in if toppingValue \<in> set currentToppings
         then setFormData
                ((formData s)\<lparr>toppings := filter (\<lambda>i. i \<noteq> toppingValue) currentToppings\<rparr>) s1
         else setFormData ((formData s)\<lparr>toppings := currentToppings @ [toppingValue]\<rparr>) s1)"

text \<open>
  The simulated order service: the first revision draws \<open>Math.random() > 0.3\<close>, which the
  model receives as the boolean \<open>r\<close>; the second revision always succeeds.
\<close>

definition order_service :: "revision \<Rightarrow> bool \<Rightarrow> bool" where
  "order_service rv r = (case rv of Rev1 \<Rightarrow> r | Rev2 \<Rightarrow> True)"

definition sizeText :: "string \<Rightarrow> string" where
  "sizeText sz = (if sz = ''S'' then ''small'' else if sz = ''M'' then ''medium'' else ''large'')"

definition toppingMessage :: "nat \<Rightarrow> string" where
  "toppingMessage toppingCount =
     (if toppingCount = 0 then ''with no toppings''
      else if toppingCount = 1 then ''with 1 topping''
      else ''with '' @ string_of_nat toppingCount @ '' toppings'')"

definition order_message :: "revision \<Rightarrow> FormState \<Rightarrow> string" where
  "order_message rv data =
     ''Thank you for your order, '' @ fullName data @ ''! Your '' @ sizeText (size data)
     @ '' pizza '' @ toppingMessage (length (toppings data))
     @ (case rv of Rev1 \<Rightarrow> [] | Rev2 \<Rightarrow> '' is on the way.'')"

text \<open>
  \<open>handleSubmit\<close> is split at its \<open>await\<close>. The part before it sets the in-flight flag
  (and, in the second revision, the attempted flag). The part after it works on the
  \<open>formData\<close> of the render that the call closed over, passed here as \<open>data\<close>. No
  statement of the \<open>try\<close> block can throw, so the \<open>catch\<close> branch has no counterpart.
\<close>

definition handleSubmit_start :: "revision \<Rightarrow> form \<Rightarrow> form" where
  "handleSubmit_start rv s =
     (let s1 = s\<lparr>isSubmitting := True\<rparr>
      in case rv of Rev1 \<Rightarrow> s1 | Rev2 \<Rightarrow> s1\<lparr>hasAttemptedSubmit := True\<rparr>)"

definition handleSubmit_success :: "revision \<Rightarrow> FormState \<Rightarrow> form \<Rightarrow> form" where
  "handleSubmit_success rv data s =
     (let message = order_message rv data;
          s1 = s\<lparr>orderMessage := trim message, orderSuccess := True, orderFailure := False\<rparr>;
          s2 = setFormData \<lparr> fullName = [], size = [], toppings = [] \<rparr> s1
      in case rv of Rev1 \<Rightarrow> s2
                  | Rev2 \<Rightarrow> s2\<lparr>errors := [], touched := [], hasAttemptedSubmit := False\<rparr>)"

definition handleSubmit_resume :: "revision \<Rightarrow> bool \<Rightarrow> FormState \<Rightarrow> form \<Rightarrow> form" where
  "handleSubmit_resume rv r data s =
     (let currentErrors = validateForm rv data;
          s1 = s\<lparr>errors := currentErrors\<rparr>
      in if length (Object_keys currentErrors) = 0
         then (let s2 = s1\<lparr>console := console s1 @ [SubmittedLog data]\<rparr>;
                   success = order_service rv r;
                   s3 = (if success then handleSubmit_success rv data s2
                         else s2\<lparr>orderSuccess := False, orderFailure := True,
                                 orderMessage := []\<rparr>)
               in s3\<lparr>isSubmitting := False\<rparr>)
         else s1\<lparr>isSubmitting := False\<rparr>)"

definition handleSubmit :: "revision \<Rightarrow> bool \<Rightarrow> form \<Rightarrow> form" where
  "handleSubmit rv r s = handleSubmit_resume rv r (formData s) (handleSubmit_start rv s)"

subsection \<open>Rendering\<close>

definition submit_disabled :: "form \<Rightarrow> bool" where
  "submit_disabled s = (isSubmitDisabled s \<or> isSubmitting s)"

definition success_banner :: "form \<Rightarrow> string option" where
  "success_banner s = (if orderSuccess s then Some (orderMessage s) else None)"

definition failure_banner :: "form \<Rightarrow> string option" where
  "failure_banner s = (if orderFailure s then Some ''Something went wrong'' else None)"

datatype field = FullNameField | SizeField | ToppingsField

definition field_key :: "field \<Rightarrow> string" where
  "field_key f = (case f of FullNameField \<Rightarrow> ''fullName'' | SizeField \<Rightarrow> ''size''
                          | ToppingsField \<Rightarrow> ''toppings'')"

text \<open>The key of \<open>touched\<close> that the error region of a field reads (second revision).\<close>

definition touched_key :: "field \<Rightarrow> string" where
  "touched_key f = (case f of FullNameField \<Rightarrow> ''fullName'' | SizeField \<Rightarrow> ''size''
                            | ToppingsField \<Rightarrow> ''topping'')"

definition truthy_flag :: "bool option \<Rightarrow> bool" where
  "truthy_flag v = (case v of None \<Rightarrow> False | Some b \<Rightarrow> b)"

definition truthy_string :: "string option \<Rightarrow> bool" where
  "truthy_string v = (case v of None \<Rightarrow> False | Some m \<Rightarrow> m \<noteq> [])"

text \<open>The text in the error region of a field, \<open>None\<close> when the region is not rendered.\<close>

definition field_error :: "revision \<Rightarrow> field \<Rightarrow> form \<Rightarrow> string option" where
  "field_error rv f s =
     (let shown = (case rv of Rev1 \<Rightarrow> True
                            | Rev2 \<Rightarrow> hasAttemptedSubmit s
                                      \<or> truthy_flag (map_of (touched s) (touched_key f)))
      in if shown \<and> truthy_string (map_of (errors s) (field_key f))
         then map_of (errors s) (field_key f) else None)"

subsection \<open>The component as a transition system\<close>

text \<open>
  An event is dispatched to its handler, the state updates of the handler are applied
  together (React 18 batches them into one render), and the effects whose dependencies
  changed run. The promise of \<open>validateForm\<close> settles in
  microtasks, before the browser delivers another event, so the validation effect completes
  inside the step that changed \<open>formData\<close>. \<open>handleSubmit\<close> is nevertheless kept in two
  steps, \<open>Submit\<close> and \<open>Resume\<close>, so that the interval in which \<open>isSubmitting\<close> is set is
  a state of the system; any event may fall into that interval. A submit event reaches the
  form only through the submit control, which does nothing while it is disabled. The select
  offers the empty placeholder and the three sizes, and there is one checkbox for each entry
  of \<open>toppingsData\<close>. Only the full-name input has an \<open>onBlur\<close> handler, in the second
  revision. \<open>Advance\<close> lets time pass; \<open>Timeout\<close> runs the timer callback once its
  deadline is reached.
\<close>

datatype event =
  Mount | Change target string | Blur target | Toggle string
  | Submit | Resume bool | Advance nat | Timeout

definition size_options :: "string list" where
  "size_options = ['''', ''S'', ''M'', ''L'']"

fun dispatch :: "revision \<Rightarrow> event \<Rightarrow> form \<Rightarrow> form option" where
  "dispatch rv Mount s =
     (if mounted s then None
      else Some (banner_effect rv (validation_effect rv (s\<lparr>mounted := True\<rparr>))))"
| "dispatch rv (Change t v) s =
     (if mounted s \<and> (case t of FullNameInput \<Rightarrow> True | SizeSelect \<Rightarrow> v \<in> set size_options)
      then Some (run_effects rv s (handleChange rv t v s)) else None)"
| "dispatch rv (Blur t) s =
     (if mounted s
      then (case (rv, t) of (Rev2, FullNameInput) \<Rightarrow> Some (run_effects rv s (handleBlur t s))
                          | _ \<Rightarrow> Some s)
      else None)"
| "dispatch rv (Toggle i) s =
     (if mounted s \<and> i \<in> set (map topping_id toppingsData)
      then Some (run_effects rv s (handleToppingChange rv i s)) else None)"
| "dispatch rv Submit s =
     (if mounted s \<and> \<not> submit_disabled s
      then Some (run_effects rv s ((handleSubmit_start rv s)\<lparr>pending := Some (formData s)\<rparr>))
      else None)"
| "dispatch rv (Resume r) s =
     (case pending s of
        None \<Rightarrow> None
      | Some data \<Rightarrow> Some (run_effects rv s (handleSubmit_resume rv r data (s\<lparr>pending := None\<rparr>))))"
| "dispatch rv (Advance d) s =
     (if mounted s then Some (s\<lparr>clock := clock s + d\<rparr>) else None)"
| "dispatch rv Timeout s =
     (case timer s of
        None \<Rightarrow> None
      | Some deadline \<Rightarrow>
          if mounted s \<and> deadline \<le> clock s
          then Some (run_effects rv s (banner_timeout (s\<lparr>timer := None\<rparr>)))
          else None)"

fun run :: "revision \<Rightarrow> event list \<Rightarrow> form \<Rightarrow> form option" where
  "run rv [] s = Some s"
| "run rv (e # es) s = (case dispatch rv e s of None \<Rightarrow> None | Some s' \<Rightarrow> run rv es s')"

inductive reachable :: "revision \<Rightarrow> form \<Rightarrow> bool" for rv :: revision where
  reachable_init: "reachable rv Form"
| reachable_step: "reachable rv s \<Longrightarrow> dispatch rv e s = Some s' \<Longrightarrow> reachable rv s'"

subsection \<open>Invariant of the reachable states\<close>

fun pending_valid :: "revision \<Rightarrow> FormState option \<Rightarrow> bool" where
  "pending_valid rv None = True"
| "pending_valid rv (Some d) = (validateForm rv d = [])"

definition form_inv :: "revision \<Rightarrow> form \<Rightarrow> bool" where
  "form_inv rv s =
     (isSubmitDisabled s = (validateForm rv (formData s) \<noteq> [])
      \<and> (errors s = [] \<or> errors s = validateForm rv (formData s))
      \<and> isSubmitting s = (pending s \<noteq> None)
      \<and> pending_valid rv (pending s)
      \<and> map_of (touched s) ''topping'' = None)"

section \<open>Properties\<close>

subsection \<open>Strings\<close>

lemma dropWhile_rev_stable:
  assumes "xs \<noteq> [] \<Longrightarrow> \<not> P (hd xs)"
  shows "dropWhile P (rev (dropWhile P (rev xs))) = rev (dropWhile P (rev xs))"
proof (cases "dropWhile P (rev xs) = []")
  case True
  show ?thesis unfolding True by simp
next
  case False
  then have ne: "xs \<noteq> []" by auto
  obtain ys where ys: "rev xs = takeWhile P (rev xs) @ dropWhile P (rev xs)" by simp
  have "last (dropWhile P (rev xs)) = last (rev xs)"
    using False by (metis last_appendR takeWhile_dropWhile_id)
  also have "\<dots> = hd xs" using ne by (simp add: last_rev)
  finally have "\<not> P (hd (rev (dropWhile P (rev xs))))"
    using assms ne False by (simp add: hd_rev)
  then show ?thesis using False
    by (cases "rev (dropWhile P (rev xs))") auto
qed

lemma trim_idem: "trim (trim s) = trim s"
proof -
  let ?a = "dropWhile is_space s"
  have "dropWhile is_space (rev (dropWhile is_space (rev ?a))) = rev (dropWhile is_space (rev ?a))"
    by (rule dropWhile_rev_stable) (simp add: hd_dropWhile)
  then show ?thesis by (simp add: trim_def)
qed

lemma trim_no_space:
  assumes "xs \<noteq> []" "\<not> is_space (hd xs)" "\<not> is_space (last xs)"
  shows "trim xs = xs"
proof -
  have a: "dropWhile is_space xs = xs"
    using assms(1,2) by (cases xs) simp_all
  have "rev xs \<noteq> []" "\<not> is_space (hd (rev xs))"
    using assms(1,3) by (simp_all add: hd_rev)
  then have b: "dropWhile is_space (rev xs) = rev xs"
    by (cases "rev xs") simp_all
  show ?thesis by (simp add: trim_def a b)
qed

lemma last_toppingMessage: "last (toppingMessage n) \<in> {CHR ''s'', CHR ''g''}"
  by (simp add: toppingMessage_def)

lemma toppingMessage_nonempty: "toppingMessage n \<noteq> []"
  by (simp add: toppingMessage_def)

lemma trim_order_message: "trim (order_message rv data) = order_message rv data"
proof (rule trim_no_space)
  show "order_message rv data \<noteq> []" by (simp add: order_message_def)
  show "\<not> is_space (hd (order_message rv data))"
    by (simp add: order_message_def is_space_def)
  have "last (order_message rv data) \<in> {CHR ''s'', CHR ''g'', CHR ''.''}"
    using last_toppingMessage[of "length (toppings data)"]
    by (cases rv) (auto simp: order_message_def toppingMessage_nonempty)
  then show "\<not> is_space (last (order_message rv data))"
    by (auto simp: is_space_def)
qed

text \<open>
  \<open>string_of_nat n\<close> is the decimal numeral of \<open>n\<close>: it is not empty, holds digits only,
  has no leading zero unless \<open>n\<close> is 0, and its digits read in base 10 give \<open>n\<close> back.
  These four facts determine the string.
\<close>

lemma digit_char_decimal:
  assumes "d < 10"
  shows "digit_char d \<in> set ''0123456789''"
    and "of_char (digit_char d) - 48 = d"
    and "d = 0 \<or> digit_char d \<noteq> CHR ''0''"
proof -
  from assms have "d \<in> {0, 1, 2, 3, 4, 5, 6, 7, 8, 9}" by (simp add: insert_iff) arith
  then show "digit_char d \<in> set ''0123456789''"
    and "of_char (digit_char d) - 48 = d"
    and "d = 0 \<or> digit_char d \<noteq> CHR ''0''"
    by (auto simp: digit_char_def)
qed

lemma string_of_nat_decimal:
  "string_of_nat n \<noteq> []
   \<and> set (string_of_nat n) \<subseteq> set ''0123456789''
   \<and> (n = 0 \<or> hd (string_of_nat n) \<noteq> CHR ''0'')
   \<and> foldl (\<lambda>a c. 10 * a + (of_char c - 48)) 0 (string_of_nat n) = n"
proof (induction n rule: string_of_nat.induct)
  case (1 n)
  show ?case
  proof (cases "n < 10")
    case True
    then have s: "string_of_nat n = [digit_char n]"
      by (subst string_of_nat.simps) simp
    show ?thesis
      unfolding s using digit_char_decimal[OF True] by simp
  next
    case False
    then have s: "string_of_nat n = string_of_nat (n div 10) @ [digit_char (n mod 10)]"
      by (subst string_of_nat.simps) simp
    have m: "n mod 10 < 10" by simp
    from False have q: "n div 10 \<noteq> 0" by simp
    note ih = "1.IH"[OF False]
    from ih q have ne: "string_of_nat (n div 10) \<noteq> []"
      and dg: "set (string_of_nat (n div 10)) \<subseteq> set ''0123456789''"
      and hz: "hd (string_of_nat (n div 10)) \<noteq> CHR ''0''"
      and vl: "foldl (\<lambda>a c. 10 * a + (of_char c - 48)) 0 (string_of_nat (n div 10)) = n div 10"
      by blast+
    have "foldl (\<lambda>a c. 10 * a + (of_char c - 48)) 0 (string_of_nat n)
        = 10 * (n div 10) + n mod 10"
      unfolding s by (simp add: vl digit_char_decimal(2)[OF m])
    then have v: "foldl (\<lambda>a c. 10 * a + (of_char c - 48)) 0 (string_of_nat n) = n"
      by simp
    have h: "hd (string_of_nat n) \<noteq> CHR ''0''"
      unfolding s using ne hz by simp
    have d: "set (string_of_nat n) \<subseteq> set ''0123456789''"
      unfolding s using dg digit_char_decimal(1)[OF m] by simp
    have e: "string_of_nat n \<noteq> []"
      unfolding s by simp
    from e d h v show ?thesis by blast
  qed
qed

lemma string_of_nat_catalogue:
  "string_of_nat 2 = ''2''" "string_of_nat 3 = ''3''" "string_of_nat 4 = ''4''"
  "string_of_nat 5 = ''5''"
  by (simp_all add: string_of_nat.simps digit_char_def)

lemma order_message_text:
  "order_message rv d =
     ''Thank you for your order, '' @ fullName d @ ''! Your '' @ sizeText (size d)
     @ '' pizza with ''
     @ (if length (toppings d) = 0 then ''no toppings''
        else if length (toppings d) = 1 then ''1 topping''
        else string_of_nat (length (toppings d)) @ '' toppings'')
     @ (case rv of Rev1 \<Rightarrow> [] | Rev2 \<Rightarrow> '' is on the way.'')"
  by (simp add: order_message_def toppingMessage_def)

subsection \<open>Frames of handlers and effects\<close>

lemma run_effects_frame:
  "formData (run_effects rv old new) = formData new"
  "orderSuccess (run_effects rv old new) = orderSuccess new"
  "orderFailure (run_effects rv old new) = orderFailure new"
  "orderMessage (run_effects rv old new) = orderMessage new"
  "isSubmitting (run_effects rv old new) = isSubmitting new"
  "touched (run_effects rv old new) = touched new"
  "hasAttemptedSubmit (run_effects rv old new) = hasAttemptedSubmit new"
  "pending (run_effects rv old new) = pending new"
  "clock (run_effects rv old new) = clock new"
  by (simp_all add: run_effects_def validation_effect_def banner_effect_def Let_def)

lemma handleToppingChange_frame:
  "formDataId (handleToppingChange rv i s) = Suc (formDataId s)"
  "isSubmitting (handleToppingChange rv i s) = isSubmitting s"
  "pending (handleToppingChange rv i s) = pending s"
  "map_of (touched (handleToppingChange rv i s)) ''topping'' = map_of (touched s) ''topping''"
  by (cases rv; simp add: handleToppingChange_def setFormData_def Let_def update_conv')+

lemma isSubmitting_kept:
  "isSubmitting (handleChange rv t v s) = isSubmitting s"
  "isSubmitting (handleBlur t s) = isSubmitting s"
  "isSubmitting (banner_timeout s) = isSubmitting s"
  "isSubmitting (banner_effect rv s) = isSubmitting s"
  "isSubmitting (validation_effect rv s) = isSubmitting s"
  by (cases rv; simp add: handleChange_def handleBlur_def banner_timeout_def banner_effect_def
      validation_effect_def setFormData_def Let_def)+

lemma handleSubmit_resume_valid:
  assumes "validateForm rv d = []"
  shows "handleSubmit_resume rv r d s =
     (if order_service rv r
      then (handleSubmit_success rv d
              (s\<lparr>errors := [], console := console s @ [SubmittedLog d]\<rparr>))
             \<lparr>isSubmitting := False\<rparr>
      else s\<lparr>errors := [], console := console s @ [SubmittedLog d], orderSuccess := False,
             orderFailure := True, orderMessage := [], isSubmitting := False\<rparr>)"
  using assms by (simp add: handleSubmit_resume_def Object_keys_def Let_def)

lemma handleSubmit_resume_outcome:
  assumes "validateForm rv d = []"
  shows "orderSuccess (handleSubmit_resume rv r d s) = order_service rv r"
    and "orderFailure (handleSubmit_resume rv r d s) = (\<not> order_service rv r)"
  using assms
  by (cases rv; simp add: handleSubmit_resume_valid handleSubmit_success_def setFormData_def
      Let_def)+

lemma handleSubmit_blocked_state:
  assumes "validateForm rv (formData s) \<noteq> []"
  shows "handleSubmit rv r s =
     s\<lparr>errors := validateForm rv (formData s), isSubmitting := False,
       hasAttemptedSubmit := (case rv of Rev1 \<Rightarrow> hasAttemptedSubmit s | Rev2 \<Rightarrow> True)\<rparr>"
  using assms
  by (cases rv)
    (simp_all add: handleSubmit_def handleSubmit_start_def handleSubmit_resume_def
      Object_keys_def Let_def)

subsection \<open>The invariant holds in every reachable state\<close>

lemma validateForm_initial: "validateForm rv initialFormData \<noteq> []"
  by (cases rv; hypsubst; code_simp)

lemma form_inv_Form: "form_inv rv Form"
  by (simp add: form_inv_def Form_def validateForm_initial)

lemma form_inv_Mount:
  assumes "form_inv rv s" "dispatch rv Mount s = Some s'"
  shows "form_inv rv s'"
  using assms
  by (auto simp: form_inv_def validation_effect_def banner_effect_def Object_keys_def
      Let_def split: if_splits)

lemma form_inv_Change:
  assumes "form_inv rv s" "dispatch rv (Change t v) s = Some s'"
  shows "form_inv rv s'"
  using assms
  by (cases rv; cases t)
    (auto simp: form_inv_def run_effects_def handleChange_def setFormData_def target_id_def
      validation_effect_def banner_effect_def Object_keys_def update_conv' Let_def
      split: if_splits option.splits)

lemma form_inv_Blur:
  assumes "form_inv rv s" "dispatch rv (Blur t) s = Some s'"
  shows "form_inv rv s'"
  using assms
  by (cases rv; cases t)
    (auto simp: form_inv_def run_effects_def handleBlur_def target_id_def
      update_conv' Let_def split: if_splits option.splits)

lemma form_inv_run_effects_fresh:
  assumes "formDataId new \<noteq> formDataId old"
    and "isSubmitting new = (pending new \<noteq> None)"
    and "pending_valid rv (pending new)"
    and "map_of (touched new) ''topping'' = None"
  shows "form_inv rv (run_effects rv old new)"
  using assms
  by (simp add: run_effects_def Let_def form_inv_def validation_effect_def banner_effect_def
      Object_keys_def)

lemma form_inv_Toggle:
  assumes "form_inv rv s" "dispatch rv (Toggle i) s = Some s'"
  shows "form_inv rv s'"
proof -
  from assms(2) have s': "s' = run_effects rv s (handleToppingChange rv i s)"
    by (simp split: if_splits)
  show ?thesis
    unfolding s' using assms(1)
    by (intro form_inv_run_effects_fresh) (simp_all add: handleToppingChange_frame form_inv_def)
qed

lemma form_inv_Submit:
  assumes "form_inv rv s" "dispatch rv Submit s = Some s'"
  shows "form_inv rv s'"
  using assms
  by (cases rv)
    (auto simp: form_inv_def run_effects_def handleSubmit_start_def submit_disabled_def
      Let_def split: if_splits option.splits)

lemma form_inv_Resume:
  assumes "form_inv rv s" "dispatch rv (Resume r) s = Some s'"
  shows "form_inv rv s'"
  using assms
  by (cases rv; cases r)
    (auto simp: form_inv_def run_effects_def handleSubmit_resume_def handleSubmit_success_def
      order_service_def setFormData_def
      validation_effect_def banner_effect_def Object_keys_def Let_def
      split: if_splits option.splits)

lemma form_inv_Advance:
  assumes "form_inv rv s" "dispatch rv (Advance d) s = Some s'"
  shows "form_inv rv s'"
  using assms by (auto simp: form_inv_def split: if_splits option.splits)

lemma form_inv_Timeout:
  assumes "form_inv rv s" "dispatch rv Timeout s = Some s'"
  shows "form_inv rv s'"
  using assms
  by (auto simp: form_inv_def run_effects_def banner_timeout_def banner_effect_def Let_def
      split: if_splits option.splits)

lemma form_inv_dispatch:
  assumes "form_inv rv s" "dispatch rv e s = Some s'"
  shows "form_inv rv s'"
  using assms
  by (cases e)
    (blast intro: form_inv_Mount form_inv_Change form_inv_Blur form_inv_Toggle form_inv_Submit
      form_inv_Resume form_inv_Advance form_inv_Timeout)+

lemma reachable_form_inv: "reachable rv s \<Longrightarrow> form_inv rv s"
  by (induction rule: reachable.induct) (auto intro: form_inv_Form form_inv_dispatch)

lemma run_reachable: "reachable rv s \<Longrightarrow> run rv es s = Some s' \<Longrightarrow> reachable rv s'"
proof (induction es arbitrary: s)
  case Nil
  then show ?case by simp
next
  case (Cons e es)
  then show ?case
    by (auto split: option.splits intro: reachable_step)
qed

lemma run_reachable_the: "run rv es Form \<noteq> None \<Longrightarrow> reachable rv (the (run rv es Form))"
  using run_reachable[OF reachable_init] by fastforce

subsection \<open>Evaluation of concrete runs\<close>

lemmas eval_defs = Form_def initialFormData_def validation_effect_def banner_effect_def
  banner_delay_def banner_timeout_def run_effects_def handleChange_def handleBlur_def
  handleToppingChange_def handleSubmit_start_def handleSubmit_success_def
  handleSubmit_resume_def setFormData_def order_service_def order_message_def
  toppingMessage_def sizeText_def submit_disabled_def success_banner_def target_id_def
  size_options_def toppingsData_def Object_keys_def validateForm_def pizzaSchema_def
  fullName_schema_def size_schema_def toppings_schema_def string_trim_test_def
  string_min_def string_max_def string_required_def oneOf_def array_required_def
  validationErrors_def trim_def is_space_def Let_def

lemma validateForm_Al:
  "validateForm rv \<lparr>fullName = ''Al'', size = ''M'', toppings = []\<rparr>
   = [(''fullName'', ''Full name must be at least 3 characters'')]"
  by (cases rv; hypsubst; code_simp)

subsection \<open>The banner timer\<close>

text \<open>
  A submission that ends while no banner is showing starts the timer with the delay of the
  revision, and a timer that is due clears the banner. In the first revision a failure
  that follows a success replaces the timer, because the dependencies of the banner effect
  change; a second failure does not, and the timer of the first failure clears its banner.
\<close>

lemma banner_timer_started:
  assumes "pending s = Some d" and "validateForm rv d = []"
    and "\<not> orderSuccess s" and "\<not> orderFailure s"
  shows "\<exists>s'. dispatch rv (Resume r) s = Some s'
           \<and> (orderSuccess s' \<or> orderFailure s')
           \<and> timer s' = Some (clock s + banner_delay rv)"
  using assms
  by (cases rv; cases r)
    (simp_all add: run_effects_def handleSubmit_resume_valid handleSubmit_success_def
      order_service_def setFormData_def validation_effect_def banner_effect_def Let_def)

lemma banner_timeout_clears:
  assumes "mounted s" and "timer s = Some deadline" and "deadline \<le> clock s"
  shows "\<exists>s'. dispatch rv Timeout s = Some s'
           \<and> success_banner s' = None \<and> failure_banner s' = None
           \<and> orderMessage s' = [] \<and> timer s' = None"
  using assms
  by (simp add: run_effects_def banner_timeout_def banner_effect_def success_banner_def
      failure_banner_def Let_def)

lemma banner_timer_renewed_on_failure:
  "map_option (\<lambda>s. (success_banner s, failure_banner s, timer s, clock s))
     (run Rev1 [Mount, Change FullNameInput ''Alice'', Change SizeSelect ''S'', Submit,
                Resume True, Advance 2000,
                Change FullNameInput ''Bob'', Change SizeSelect ''L'', Submit, Resume False] Form)
     = Some (None, Some ''Something went wrong'', Some 5000, 2000)"
  by (simp add: eval_defs failure_banner_def)

lemma banner_timer_second_failure:
  "map_option (\<lambda>s. (success_banner s, failure_banner s, timer s, clock s))
     (run Rev1 [Mount, Change FullNameInput ''Alice'', Change SizeSelect ''S'', Submit,
                Resume False, Advance 2000, Submit, Resume False, Advance 1000, Timeout] Form)
     = Some (None, None, None, 3000)"
  by (simp add: eval_defs failure_banner_def)

section \<open>The claims\<close>

text \<open>
  Claim C1. A form whose trimmed full name has between 3 and 20 characters and whose size is
  S, M or L validates to the empty error mapping, in both revisions. The toppings field is
  an array by its type, and no array makes the schema fail.
\<close>

theorem validateForm_valid_form:
  assumes "3 \<le> length (trim (fullName d))" and "length (trim (fullName d)) \<le> 20"
    and "size d \<in> {''S'', ''M'', ''L''}"
  shows "validateForm rv d = []"
  using assms
  by (auto simp: validateForm_def pizzaSchema_def fullName_schema_def size_schema_def
      toppings_schema_def string_trim_test_def string_min_def string_max_def
      string_required_def oneOf_def array_required_def trim_idem Let_def split: revision.splits)

text \<open>The theorem at a padded name with two toppings.\<close>

theorem validateForm_valid_form_witness:
  "3 \<le> length (trim (fullName \<lparr>fullName = ''  Alice '', size = ''S'', toppings = [''1'', ''3'']\<rparr>))
   \<and> length (trim (fullName \<lparr>fullName = ''  Alice '', size = ''S'', toppings = [''1'', ''3'']\<rparr>)) \<le> 20
   \<and> size \<lparr>fullName = ''  Alice '', size = ''S'', toppings = [''1'', ''3'']\<rparr> \<in> {''S'', ''M'', ''L''}
   \<and> validateForm Rev1 \<lparr>fullName = ''  Alice '', size = ''S'', toppings = [''1'', ''3'']\<rparr> = []"
proof -
  let ?d = "\<lparr>fullName = ''  Alice '', size = ''S'', toppings = [''1'', ''3'']\<rparr>"
  have h1: "3 \<le> length (trim (fullName ?d))" by code_simp
  have h2: "length (trim (fullName ?d)) \<le> 20" by code_simp
  have h3: "size ?d \<in> {''S'', ''M'', ''L''}" by simp
  show ?thesis
    by (intro conjI h1 h2 h3 validateForm_valid_form[OF h1 h2 h3])
qed

text \<open>
  Claim C2, as amended. \<open>handleSubmit\<close> logs and performs the submission exactly when the
  error mapping computed from the form data is empty. When the mapping is not empty it does
  nothing but store the mapping, clear the in-flight flag and, in the second revision, set
  \<open>hasAttemptedSubmit\<close>: the console, the banner state and the form data are unchanged.
\<close>

theorem handleSubmit_submits_iff_valid:
  "console (handleSubmit rv r s) =
     (if validateForm rv (formData s) = [] then console s @ [SubmittedLog (formData s)]
      else console s)
   \<and> (validateForm rv (formData s) \<noteq> [] \<longrightarrow>
        handleSubmit rv r s =
          s\<lparr>errors := validateForm rv (formData s), isSubmitting := False,
            hasAttemptedSubmit := (case rv of Rev1 \<Rightarrow> hasAttemptedSubmit s | Rev2 \<Rightarrow> True)\<rparr>)"
proof (cases "validateForm rv (formData s) = []")
  case True
  have co: "console (handleSubmit_start q s) = console s" for q
    by (cases q) (simp_all add: handleSubmit_start_def Let_def)
  have "console (handleSubmit rv r s) = console s @ [SubmittedLog (formData s)]"
    unfolding handleSubmit_def handleSubmit_resume_valid[OF True]
    by (cases rv; simp add: handleSubmit_success_def setFormData_def co Let_def)
  with True show ?thesis by simp
next
  case False
  then show ?thesis
    by (simp add: handleSubmit_blocked_state)
qed

text \<open>
  The theorem at the mounted, empty form of the first revision: the blocked submit leaves
  the state as it was.
\<close>

theorem handleSubmit_submits_iff_valid_witness:
  "validateForm Rev1 (formData (the (run Rev1 [Mount] Form))) \<noteq> []
   \<and> console (handleSubmit Rev1 True (the (run Rev1 [Mount] Form)))
       = console (the (run Rev1 [Mount] Form))
   \<and> handleSubmit Rev1 True (the (run Rev1 [Mount] Form)) = the (run Rev1 [Mount] Form)"
proof -
  let ?s = "the (run Rev1 [Mount] Form)"
  have h: "validateForm Rev1 (formData ?s) \<noteq> []" by code_simp
  have e: "errors ?s = validateForm Rev1 (formData ?s)" by code_simp
  have i: "isSubmitting ?s = False" by code_simp
  from handleSubmit_submits_iff_valid[of Rev1 True ?s] h
  have c: "console (handleSubmit Rev1 True ?s) = console ?s"
    and "handleSubmit Rev1 True ?s =
      ?s\<lparr>errors := validateForm Rev1 (formData ?s), isSubmitting := False,
         hasAttemptedSubmit := hasAttemptedSubmit ?s\<rparr>"
    by simp_all
  moreover have "t\<lparr>errors := v, isSubmitting := False, hasAttemptedSubmit := hasAttemptedSubmit t\<rparr> = t"
    if "errors t = v" "isSubmitting t = False" for t :: form and v
    using that by (cases t) simp
  ultimately have "handleSubmit Rev1 True ?s = ?s"
    using e i by metis
  with h c show ?thesis by blast
qed

text \<open>
  The claim as first stated fails in the second revision: a blocked submit on the mounted,
  empty form changes \<open>hasAttemptedSubmit\<close>, which is neither the error mapping nor the
  in-flight flag.
\<close>

theorem handleSubmit_attempt_flag_counterexample:
  "validateForm Rev2 (formData (the (run Rev2 [Mount] Form))) \<noteq> []
   \<and> \<not> hasAttemptedSubmit (the (run Rev2 [Mount] Form))
   \<and> hasAttemptedSubmit (handleSubmit Rev2 True (the (run Rev2 [Mount] Form)))
   \<and> handleSubmit Rev2 True (the (run Rev2 [Mount] Form))
       \<noteq> (the (run Rev2 [Mount] Form))
            \<lparr>errors := validateForm Rev2 (formData (the (run Rev2 [Mount] Form))),
              isSubmitting := False\<rparr>"
proof -
  let ?s = "the (run Rev2 [Mount] Form)"
  have a: "validateForm Rev2 (formData ?s) \<noteq> []" by code_simp
  have b: "\<not> hasAttemptedSubmit ?s" by code_simp
  have c: "hasAttemptedSubmit (handleSubmit Rev2 True ?s)" by code_simp
  have d: "handleSubmit Rev2 True ?s
             \<noteq> ?s\<lparr>errors := validateForm Rev2 (formData ?s), isSubmitting := False\<rparr>"
  proof
    assume "handleSubmit Rev2 True ?s
              = ?s\<lparr>errors := validateForm Rev2 (formData ?s), isSubmitting := False\<rparr>"
    then have "hasAttemptedSubmit (handleSubmit Rev2 True ?s) = hasAttemptedSubmit ?s"
      by simp
    with b c show False by simp
  qed
  show ?thesis by (intro conjI a b c d)
qed

text \<open>
  Claim C3. In every reachable state, a non-empty error mapping means that the submit
  control is disabled. The statement does not mention \<open>touched\<close>: it holds whatever has
  been touched.
\<close>

theorem submit_disabled_when_errors:
  assumes "reachable rv s" and "errors s \<noteq> []"
  shows "submit_disabled s"
  using reachable_form_inv[OF assms(1)] assms(2)
  by (auto simp: form_inv_def submit_disabled_def)

text \<open>The theorem at the freshly mounted form, whose empty fields are in error.\<close>

theorem submit_disabled_when_errors_witness:
  "reachable Rev2 (the (run Rev2 [Mount] Form))
   \<and> errors (the (run Rev2 [Mount] Form)) \<noteq> []
   \<and> submit_disabled (the (run Rev2 [Mount] Form))"
proof -
  have h1: "reachable Rev2 (the (run Rev2 [Mount] Form))"
    by (rule run_reachable_the) code_simp
  have h2: "errors (the (run Rev2 [Mount] Form)) \<noteq> []" by code_simp
  show ?thesis
    by (intro conjI h1 h2 submit_disabled_when_errors[OF h1 h2])
qed

text \<open>
  Claim C4. When a submission of valid form data succeeds, the step resets \<open>formData\<close>
  to empty name, empty size and no toppings, clears \<open>touched\<close> and
  \<open>hasAttemptedSubmit\<close> (the second revision; the first has neither), and shows a
  confirmation built from the name, the size and the number of toppings, which reads
  "no toppings" for 0, "1 topping" for 1 and "N toppings" otherwise. The last four
  conjuncts say that the N in the message is the decimal numeral of the number of
  toppings: digits only, no leading zero, and value N.
\<close>

theorem succeeded_transition:
  assumes "pending s = Some d" and "validateForm rv d = []" and "order_service rv r"
  shows "(\<exists>s'. dispatch rv (Resume r) s = Some s'
           \<and> formData s' = \<lparr>fullName = [], size = [], toppings = []\<rparr>
           \<and> (case rv of Rev1 \<Rightarrow> True
                         | Rev2 \<Rightarrow> touched s' = [] \<and> \<not> hasAttemptedSubmit s')
           \<and> success_banner s' = Some (orderMessage s')
           \<and> orderMessage s' =
               ''Thank you for your order, '' @ fullName d @ ''! Your '' @ sizeText (size d)
               @ '' pizza with ''
               @ (if length (toppings d) = 0 then ''no toppings''
                  else if length (toppings d) = 1 then ''1 topping''
                  else string_of_nat (length (toppings d)) @ '' toppings'')
               @ (case rv of Rev1 \<Rightarrow> [] | Rev2 \<Rightarrow> '' is on the way.''))
         \<and> string_of_nat (length (toppings d)) \<noteq> []
         \<and> set (string_of_nat (length (toppings d))) \<subseteq> set ''0123456789''
         \<and> (length (toppings d) = 0 \<or> hd (string_of_nat (length (toppings d))) \<noteq> CHR ''0'')
         \<and> foldl (\<lambda>a c. 10 * a + (of_char c - 48)) 0 (string_of_nat (length (toppings d)))
             = length (toppings d)"
proof -
  let ?h = "handleSubmit_resume rv r d (s\<lparr>pending := None\<rparr>)"
  have step: "dispatch rv (Resume r) s = Some (run_effects rv s ?h)"
    using assms(1) by simp
  have h: "?h = (handleSubmit_success rv d
                   (s\<lparr>pending := None, errors := [],
                      console := console s @ [SubmittedLog d]\<rparr>))\<lparr>isSubmitting := False\<rparr>"
    using assms(3) by (simp add: handleSubmit_resume_valid[OF assms(2)])
  have f: "formData ?h = \<lparr>fullName = [], size = [], toppings = []\<rparr>"
    and m: "orderMessage ?h = order_message rv d"
    and o: "orderSuccess ?h"
    and t: "case rv of Rev1 \<Rightarrow> True | Rev2 \<Rightarrow> touched ?h = [] \<and> \<not> hasAttemptedSubmit ?h"
    unfolding h
    by (cases rv; simp add: handleSubmit_success_def setFormData_def trim_order_message Let_def)+
  let ?s' = "run_effects rv s ?h"
  have c1: "formData ?s' = \<lparr>fullName = [], size = [], toppings = []\<rparr>"
    by (simp add: run_effects_frame f)
  have c2: "case rv of Rev1 \<Rightarrow> True | Rev2 \<Rightarrow> touched ?s' = [] \<and> \<not> hasAttemptedSubmit ?s'"
    using t by (simp add: run_effects_frame split: revision.splits)
  have c3: "success_banner ?s' = Some (orderMessage ?s')"
    using o by (simp add: success_banner_def run_effects_frame)
  have "orderMessage ?s' = order_message rv d"
    by (simp add: run_effects_frame m)
  then have c4: "orderMessage ?s' =
      ''Thank you for your order, '' @ fullName d @ ''! Your '' @ sizeText (size d)
      @ '' pizza with ''
      @ (if length (toppings d) = 0 then ''no toppings''
         else if length (toppings d) = 1 then ''1 topping''
         else string_of_nat (length (toppings d)) @ '' toppings'')
      @ (case rv of Rev1 \<Rightarrow> [] | Rev2 \<Rightarrow> '' is on the way.'')"
    by (simp only: order_message_text)
  from step c1 c2 c3 c4
  have "\<exists>s'. dispatch rv (Resume r) s = Some s'
      \<and> formData s' = \<lparr>fullName = [], size = [], toppings = []\<rparr>
      \<and> (case rv of Rev1 \<Rightarrow> True
                    | Rev2 \<Rightarrow> touched s' = [] \<and> \<not> hasAttemptedSubmit s')
      \<and> success_banner s' = Some (orderMessage s')
      \<and> orderMessage s' =
          ''Thank you for your order, '' @ fullName d @ ''! Your '' @ sizeText (size d)
          @ '' pizza with ''
          @ (if length (toppings d) = 0 then ''no toppings''
             else if length (toppings d) = 1 then ''1 topping''
             else string_of_nat (length (toppings d)) @ '' toppings'')
          @ (case rv of Rev1 \<Rightarrow> [] | Rev2 \<Rightarrow> '' is on the way.'')"
    by blast
  with string_of_nat_decimal[of "length (toppings d)"] show ?thesis
    by (intro conjI) (elim conjE, assumption)+
qed

text \<open>The theorem at Alice's small pizza with toppings 1 and 3.\<close>

theorem succeeded_transition_witness:
  "pending (the (run Rev2 [Mount, Change FullNameInput ''Alice'', Change SizeSelect ''S'',
                            Toggle ''1'', Toggle ''3'', Submit] Form))
     = Some \<lparr>fullName = ''Alice'', size = ''S'', toppings = [''1'', ''3'']\<rparr>
   \<and> validateForm Rev2 \<lparr>fullName = ''Alice'', size = ''S'', toppings = [''1'', ''3'']\<rparr> = []
   \<and> order_service Rev2 True
   \<and> (\<exists>s'. dispatch Rev2 (Resume True)
               (the (run Rev2 [Mount, Change FullNameInput ''Alice'', Change SizeSelect ''S'',
                               Toggle ''1'', Toggle ''3'', Submit] Form)) = Some s'
             \<and> formData s' = \<lparr>fullName = [], size = [], toppings = []\<rparr>
             \<and> success_banner s'
                 = Some ''Thank you for your order, Alice! Your small pizza with 2 toppings is on the way.'')"
proof -
  let ?s = "the (run Rev2 [Mount, Change FullNameInput ''Alice'', Change SizeSelect ''S'',
                           Toggle ''1'', Toggle ''3'', Submit] Form)"
  let ?d = "\<lparr>fullName = ''Alice'', size = ''S'', toppings = [''1'', ''3'']\<rparr>"
  let ?long = "''Thank you for your order, '' @ fullName ?d @ ''! Your '' @ sizeText (size ?d)
      @ '' pizza with ''
      @ (if length (toppings ?d) = 0 then ''no toppings''
         else if length (toppings ?d) = 1 then ''1 topping''
         else string_of_nat (length (toppings ?d)) @ '' toppings'')
      @ (case Rev2 of Rev1 \<Rightarrow> [] | Rev2 \<Rightarrow> '' is on the way.'')"
  have h1: "pending ?s = Some ?d" by code_simp
  have h2: "validateForm Rev2 ?d = []" by code_simp
  have h3: "order_service Rev2 True" by code_simp
  have lit: "?long
      = ''Thank you for your order, Alice! Your small pizza with 2 toppings is on the way.''"
    by code_simp
  from succeeded_transition[OF h1 h2 h3]
  obtain s' where a: "dispatch Rev2 (Resume True) ?s = Some s'"
    and b: "formData s' = \<lparr>fullName = [], size = [], toppings = []\<rparr>"
    and c: "success_banner s' = Some (orderMessage s')"
    and e: "orderMessage s' = ?long"
    by blast
  have "success_banner s'
      = Some ''Thank you for your order, Alice! Your small pizza with 2 toppings is on the way.''"
    by (simp only: c e lit)
  with a b have "\<exists>s'. dispatch Rev2 (Resume True) ?s = Some s'
      \<and> formData s' = \<lparr>fullName = [], size = [], toppings = []\<rparr>
      \<and> success_banner s'
          = Some ''Thank you for your order, Alice! Your small pizza with 2 toppings is on the way.''"
    by blast
  with h1 h2 h3 show ?thesis by blast
qed

text \<open>
  Claim C5. When a submission of valid form data fails, the step leaves \<open>formData\<close> as
  it is and the failure banner reads "Something went wrong". Only the first revision can
  fail: the order service of the second always succeeds.
\<close>

theorem failed_transition:
  assumes "pending s = Some d" and "validateForm rv d = []" and "\<not> order_service rv r"
  shows "\<exists>s'. dispatch rv (Resume r) s = Some s'
           \<and> formData s' = formData s
           \<and> failure_banner s' = Some ''Something went wrong''
           \<and> success_banner s' = None"
proof -
  let ?h = "handleSubmit_resume rv r d (s\<lparr>pending := None\<rparr>)"
  have step: "dispatch rv (Resume r) s = Some (run_effects rv s ?h)"
    using assms(1) by simp
  have h: "?h = s\<lparr>pending := None, errors := [], console := console s @ [SubmittedLog d],
                  orderSuccess := False, orderFailure := True, orderMessage := [],
                  isSubmitting := False\<rparr>"
    using assms(3) by (simp add: handleSubmit_resume_valid[OF assms(2)])
  have "formData (run_effects rv s ?h) = formData s"
    and "failure_banner (run_effects rv s ?h) = Some ''Something went wrong''"
    and "success_banner (run_effects rv s ?h) = None"
    by (simp_all add: run_effects_frame failure_banner_def success_banner_def h)
  with step show ?thesis by blast
qed

text \<open>The theorem at a rejected order of the first revision.\<close>

theorem failed_transition_witness:
  "pending (the (run Rev1 [Mount, Change FullNameInput ''Alice'', Change SizeSelect ''S'',
                            Toggle ''1'', Submit] Form))
     = Some \<lparr>fullName = ''Alice'', size = ''S'', toppings = [''1'']\<rparr>
   \<and> validateForm Rev1 \<lparr>fullName = ''Alice'', size = ''S'', toppings = [''1'']\<rparr> = []
   \<and> \<not> order_service Rev1 False
   \<and> (\<exists>s'. dispatch Rev1 (Resume False)
               (the (run Rev1 [Mount, Change FullNameInput ''Alice'', Change SizeSelect ''S'',
                               Toggle ''1'', Submit] Form)) = Some s'
             \<and> formData s' = \<lparr>fullName = ''Alice'', size = ''S'', toppings = [''1'']\<rparr>
             \<and> failure_banner s' = Some ''Something went wrong'')"
proof -
  let ?s = "the (run Rev1 [Mount, Change FullNameInput ''Alice'', Change SizeSelect ''S'',
                           Toggle ''1'', Submit] Form)"
  let ?d = "\<lparr>fullName = ''Alice'', size = ''S'', toppings = [''1'']\<rparr>"
  have h1: "pending ?s = Some ?d" by code_simp
  have h2: "validateForm Rev1 ?d = []" by code_simp
  have h3: "\<not> order_service Rev1 False" by code_simp
  have fd: "formData ?s = ?d" by code_simp
  from failed_transition[OF h1 h2 h3]
  obtain s' where a: "dispatch Rev1 (Resume False) ?s = Some s'"
    and b: "formData s' = formData ?s"
    and c: "failure_banner s' = Some ''Something went wrong''"
    by blast
  from b have "formData s' = ?d" by (simp only: fd)
  with a c have "\<exists>s'. dispatch Rev1 (Resume False) ?s = Some s'
      \<and> formData s' = ?d \<and> failure_banner s' = Some ''Something went wrong''"
    by blast
  with h1 h2 h3 show ?thesis by blast
qed

text \<open>
  Claim C6. With full name "Al", size "M" and no toppings the error mapping is exactly the
  too-short message under \<open>fullName\<close>, with no entry for size or toppings, and the submit
  control is disabled in every reachable state that holds this form data.
\<close>

theorem scenario_Al_M:
  assumes "reachable rv s"
    and "formData s = \<lparr>fullName = ''Al'', size = ''M'', toppings = []\<rparr>"
  shows "validateForm rv (formData s)
           = [(''fullName'', ''Full name must be at least 3 characters'')]
         \<and> map_of (validateForm rv (formData s)) ''size'' = None
         \<and> map_of (validateForm rv (formData s)) ''toppings'' = None
         \<and> submit_disabled s"
  using reachable_form_inv[OF assms(1)]
  by (simp add: assms(2) validateForm_Al form_inv_def submit_disabled_def)

text \<open>The theorem at the state reached by typing "Al" and choosing "M".\<close>

theorem scenario_Al_M_witness:
  "reachable Rev1 (the (run Rev1 [Mount, Change FullNameInput ''Al'', Change SizeSelect ''M''] Form))
   \<and> formData (the (run Rev1 [Mount, Change FullNameInput ''Al'', Change SizeSelect ''M''] Form))
       = \<lparr>fullName = ''Al'', size = ''M'', toppings = []\<rparr>
   \<and> errors (the (run Rev1 [Mount, Change FullNameInput ''Al'', Change SizeSelect ''M''] Form))
       = [(''fullName'', ''Full name must be at least 3 characters'')]
   \<and> submit_disabled
        (the (run Rev1 [Mount, Change FullNameInput ''Al'', Change SizeSelect ''M''] Form))"
proof -
  let ?s = "the (run Rev1 [Mount, Change FullNameInput ''Al'', Change SizeSelect ''M''] Form)"
  have h1: "reachable Rev1 ?s"
    by (rule run_reachable_the) code_simp
  have h2: "formData ?s = \<lparr>fullName = ''Al'', size = ''M'', toppings = []\<rparr>"
    by code_simp
  have h3: "errors ?s = [(''fullName'', ''Full name must be at least 3 characters'')]"
    by code_simp
  from scenario_Al_M[OF h1 h2] have h4: "submit_disabled ?s" by (elim conjE)
  show ?thesis
    by (intro conjI h1 h2 h3 h4)
qed

text \<open>
  Claim C7, as amended. In every reachable state the error text of a field is rendered only
  when the field is currently invalid; in the second revision, moreover, only when the field
  has been touched or a submit has been attempted. The toppings region of the second
  revision reads \<open>touched.topping\<close>, a key that no handler writes, so it depends on
  \<open>hasAttemptedSubmit\<close> alone.
\<close>

theorem field_error_shown_only_if:
  assumes "reachable rv s" and "field_error rv f s = Some m"
  shows "map_of (validateForm rv (formData s)) (field_key f) = Some m
         \<and> (case rv of Rev1 \<Rightarrow> True
                       | Rev2 \<Rightarrow> hasAttemptedSubmit s
                                 \<or> map_of (touched s) (field_key f) = Some True)"
proof -
  note inv = reachable_form_inv[OF assms(1)]
  from assms(2) have e: "map_of (errors s) (field_key f) = Some m"
    by (simp add: field_error_def Let_def split: if_splits)
  then have "errors s \<noteq> []" by auto
  with inv have "errors s = validateForm rv (formData s)"
    by (auto simp: form_inv_def)
  with e have invalid: "map_of (validateForm rv (formData s)) (field_key f) = Some m"
    by simp
  have interacted: "hasAttemptedSubmit s \<or> map_of (touched s) (field_key f) = Some True"
    if "rv = Rev2"
  proof -
    from assms(2) that
    have g: "hasAttemptedSubmit s \<or> truthy_flag (map_of (touched s) (touched_key f))"
      by (simp add: field_error_def Let_def split: if_splits)
    from inv have n: "map_of (touched s) ''topping'' = None"
      by (simp add: form_inv_def)
    show ?thesis
      using g n
      by (cases f)
        (auto simp: touched_key_def field_key_def truthy_flag_def split: option.splits)
  qed
  from invalid interacted show ?thesis
    by (cases rv) simp_all
qed

text \<open>The theorem at the second revision after typing "Al".\<close>

theorem field_error_shown_only_if_witness:
  "reachable Rev2 (the (run Rev2 [Mount, Change FullNameInput ''Al''] Form))
   \<and> field_error Rev2 FullNameField (the (run Rev2 [Mount, Change FullNameInput ''Al''] Form))
       = Some ''Full name must be at least 3 characters''
   \<and> map_of (validateForm Rev2
               (formData (the (run Rev2 [Mount, Change FullNameInput ''Al''] Form))))
         (field_key FullNameField)
       = Some ''Full name must be at least 3 characters''
   \<and> map_of (touched (the (run Rev2 [Mount, Change FullNameInput ''Al''] Form)))
         (field_key FullNameField) = Some True"
proof -
  let ?s = "the (run Rev2 [Mount, Change FullNameInput ''Al''] Form)"
  have h1: "reachable Rev2 ?s"
    by (rule run_reachable_the) code_simp
  have h2: "field_error Rev2 FullNameField ?s = Some ''Full name must be at least 3 characters''"
    by code_simp
  have h3: "map_of (touched ?s) (field_key FullNameField) = Some True"
    by code_simp
  from field_error_shown_only_if[OF h1 h2]
  have h4: "map_of (validateForm Rev2 (formData ?s)) (field_key FullNameField)
      = Some ''Full name must be at least 3 characters''"
    by (rule conjunct1)
  show ?thesis
    by (intro conjI h1 h2 h3 h4)
qed

text \<open>
  The claim as first stated fails in the first revision: right after mounting, with no
  field touched and no submit attempted, the full-name error is on display.
\<close>

theorem field_error_untouched_counterexample:
  "run Rev1 [Mount] Form \<noteq> None
   \<and> field_error Rev1 FullNameField (the (run Rev1 [Mount] Form))
       = Some ''Full name is required''
   \<and> map_of (touched (the (run Rev1 [Mount] Form))) (field_key FullNameField) = None
   \<and> \<not> hasAttemptedSubmit (the (run Rev1 [Mount] Form))"
  by code_simp

text \<open>
  Claim C8. The banner effect depends on \<open>orderSuccess\<close> and \<open>orderFailure\<close> only. A
  second success while the first banner is still up changes neither, so the timer of the
  first success stays pending. In the run below the second order succeeds at 20000 ms; its
  banner is shown with the deadline 30000 ms of the first timer, and that timer clears it
  at 30000 ms, 10 seconds after it appeared.
\<close>

theorem banner_timer_second_success:
  "map_option (\<lambda>s. (success_banner s, timer s, clock s))
     (run Rev2 [Mount, Change FullNameInput ''Alice'', Change SizeSelect ''S'', Submit,
                Resume True, Advance 20000,
                Change FullNameInput ''Bob'', Change SizeSelect ''L'', Submit, Resume True] Form)
     = Some (Some ''Thank you for your order, Bob! Your large pizza with no toppings is on the way.'',
             Some 30000, 20000)
   \<and> map_option (\<lambda>s. (success_banner s, timer s, clock s))
     (run Rev2 [Mount, Change FullNameInput ''Alice'', Change SizeSelect ''S'', Submit,
                Resume True, Advance 20000,
                Change FullNameInput ''Bob'', Change SizeSelect ''L'', Submit, Resume True,
                Advance 10000, Timeout] Form)
     = Some (None, None, 30000)"
  by (simp add: eval_defs)

text \<open>
  Claim C9. In every reachable state with \<open>isSubmitting\<close> set there is a suspended
  \<open>handleSubmit\<close>, the submit control is disabled and a submit event starts nothing; the
  flag is cleared only by the step that resumes that call, which records its outcome.
\<close>

theorem in_flight_blocks_submit:
  assumes "reachable rv s" and "isSubmitting s"
  shows "pending s \<noteq> None \<and> submit_disabled s \<and> dispatch rv Submit s = None
         \<and> (\<forall>e s'. dispatch rv e s = Some s' \<and> \<not> isSubmitting s'
               \<longrightarrow> (\<exists>r. e = Resume r) \<and> (orderSuccess s' \<or> orderFailure s'))"
proof -
  from reachable_form_inv[OF assms(1)] assms(2)
  obtain d where d: "pending s = Some d" "validateForm rv d = []"
    by (cases "pending s") (auto simp: form_inv_def)
  have a: "submit_disabled s" "dispatch rv Submit s = None"
    using assms(2) by (simp_all add: submit_disabled_def)
  have b: "(\<exists>r. e = Resume r) \<and> (orderSuccess s' \<or> orderFailure s')"
    if "dispatch rv e s = Some s'" "\<not> isSubmitting s'" for e s'
  proof (cases e)
    case (Resume r)
    with that(1) d have "s' = run_effects rv s (handleSubmit_resume rv r d (s\<lparr>pending := None\<rparr>))"
      by simp
    then have "orderSuccess s' \<or> orderFailure s'"
      by (simp add: run_effects_frame handleSubmit_resume_outcome[OF d(2)])
    with Resume show ?thesis by simp
  next
    case Mount
    with that assms(2) show ?thesis
      by (auto simp: isSubmitting_kept split: if_splits)
  next
    case (Change t v)
    with that assms(2) show ?thesis
      by (auto simp: run_effects_frame isSubmitting_kept split: if_splits)
  next
    case (Blur t)
    with that assms(2) show ?thesis
      by (cases rv; cases t) (auto simp: run_effects_frame isSubmitting_kept split: if_splits)
  next
    case (Toggle i)
    with that assms(2) show ?thesis
      by (auto simp: run_effects_frame handleToppingChange_frame split: if_splits)
  next
    case Submit
    with that a show ?thesis by simp
  next
    case (Advance n)
    with that assms(2) show ?thesis by (auto split: if_splits)
  next
    case Timeout
    with that assms(2) show ?thesis
      by (auto simp: run_effects_frame isSubmitting_kept split: if_splits option.splits)
  qed
  from d a b show ?thesis by blast
qed

text \<open>The theorem at the state right after a submit of valid data.\<close>

theorem in_flight_blocks_submit_witness:
  "reachable Rev2
     (the (run Rev2 [Mount, Change FullNameInput ''Alice'', Change SizeSelect ''S'', Submit] Form))
   \<and> isSubmitting
       (the (run Rev2 [Mount, Change FullNameInput ''Alice'', Change SizeSelect ''S'', Submit] Form))
   \<and> submit_disabled
       (the (run Rev2 [Mount, Change FullNameInput ''Alice'', Change SizeSelect ''S'', Submit] Form))
   \<and> dispatch Rev2 Submit
       (the (run Rev2 [Mount, Change FullNameInput ''Alice'', Change SizeSelect ''S'', Submit] Form))
       = None"
proof -
  let ?s = "the (run Rev2 [Mount, Change FullNameInput ''Alice'', Change SizeSelect ''S'', Submit] Form)"
  have h1: "reachable Rev2 ?s"
    by (rule run_reachable_the) code_simp
  have h2: "isSubmitting ?s" by code_simp
  from in_flight_blocks_submit[OF h1 h2]
  have h3: "submit_disabled ?s" and h4: "dispatch Rev2 Submit ?s = None"
    by blast+
  show ?thesis
    by (intro conjI h1 h2 h3 h4)
qed

text \<open>
  Claim C10. On a toppings list without duplicates \<open>handleToppingChange\<close> toggles
  membership: the id is in the new list exactly when it was not in the old one, the new
  list has no duplicates, and toggling twice gives back the original set.
\<close>

theorem handleToppingChange_toggles:
  assumes "distinct (toppings (formData s))"
  shows "(i \<in> set (toppings (formData (handleToppingChange rv i s)))
            \<longleftrightarrow> i \<notin> set (toppings (formData s)))
    \<and> distinct (toppings (formData (handleToppingChange rv i s)))
    \<and> set (toppings (formData (handleToppingChange rv i (handleToppingChange rv i s))))
        = set (toppings (formData s))"
  using assms by (cases rv) (auto simp: handleToppingChange_def setFormData_def Let_def)

text \<open>The theorem at the list 1, 3 and the id 3.\<close>

theorem handleToppingChange_toggles_witness:
  "distinct (toppings (formData (Form\<lparr>formData := \<lparr>fullName = ''Alice'', size = ''S'', toppings = [''1'', ''3'']\<rparr>\<rparr>)))
   \<and> toppings (formData (handleToppingChange Rev2 ''3''
         (Form\<lparr>formData := \<lparr>fullName = ''Alice'', size = ''S'', toppings = [''1'', ''3'']\<rparr>\<rparr>)))
       = [''1'']
   \<and> ''3'' \<notin> set (toppings (formData (handleToppingChange Rev2 ''3''
         (Form\<lparr>formData := \<lparr>fullName = ''Alice'', size = ''S'', toppings = [''1'', ''3'']\<rparr>\<rparr>))))
   \<and> distinct (toppings (formData (handleToppingChange Rev2 ''3''
         (Form\<lparr>formData := \<lparr>fullName = ''Alice'', size = ''S'', toppings = [''1'', ''3'']\<rparr>\<rparr>))))"
proof -
  let ?s = "Form\<lparr>formData := \<lparr>fullName = ''Alice'', size = ''S'', toppings = [''1'', ''3'']\<rparr>\<rparr>"
  have h: "distinct (toppings (formData ?s))" by simp
  have e: "toppings (formData (handleToppingChange Rev2 ''3'' ?s)) = [''1'']"
    by code_simp
  have m: "''3'' \<in> set (toppings (formData ?s))" by simp
  from handleToppingChange_toggles[OF h, of "''3''" Rev2] m
  have n: "''3'' \<notin> set (toppings (formData (handleToppingChange Rev2 ''3'' ?s)))"
    and d: "distinct (toppings (formData (handleToppingChange Rev2 ''3'' ?s)))"
    by blast+
  show ?thesis
    by (intro conjI h e n d)
qed

end
